theory Spec2Isabelle
  imports Complex_Main
begin

section \<open>Numbers and strings of the page scripts\<close>

text \<open>
  The upload page is driven by two scripts: \<^verbatim>\<open>script.js\<close> (drop area, file summary with
  \<^verbatim>\<open>formatFileSize\<close>, remove button, simulated progress) and a smaller variant of the
  same widget (drop zone, \<^verbatim>\<open>showFile\<close>, progress container). A file size is a
  \<open>nat\<close>: the value of \<^verbatim>\<open>file.size\<close>, a Number with an integer value (every integer below
  \<open>2 ^ 53\<close>, and the doubles from there up to \<open>2 ^ 64\<close>, the bound of a file size). Such a
  size divided by a power of 1024 is exact in a double, and the quotient of logarithms in
  \<^verbatim>\<open>formatFileSize\<close> is modelled as doubles round it (\<open>floor_log_quotient\<close>). The progress
  value is a \<open>real\<close>: the sum \<^verbatim>\<open>progress += Math.random() * 10\<close> is the one place where the
  model idealises floating point.
\<close>

text \<open>Decimal digits of a non-negative integer, as \<^verbatim>\<open>String(n)\<close> prints them.\<close>

definition digit :: "nat \<Rightarrow> char" where
  "digit n = ''0123456789'' ! n"

fun decimal :: "nat \<Rightarrow> string" where
  "decimal n = (if n < 10 then [digit n] else decimal (n div 10) @ [digit (n mod 10)])"

declare decimal.simps [simp del]

text \<open>
  \<^verbatim>\<open>x.toFixed(2)\<close> for \<open>x = b / d\<close>: the integer \<open>n\<close> with \<open>n / 100\<close> closest to \<open>x\<close>,
  the larger one on a tie. The function returns that \<open>n\<close> (the value in hundredths).
\<close>

definition toFixed2 :: "nat \<Rightarrow> nat \<Rightarrow> nat" where
  "toFixed2 b d = (200 * b + d) div (2 * d)"

text \<open>The text of \<^verbatim>\<open>toFixed(2)\<close>: always two decimals.\<close>

definition toFixed2_string :: "nat \<Rightarrow> string" where
  "toFixed2_string n = decimal (n div 100) @ ''.'' @ [digit (n mod 100 div 10), digit (n mod 10)]"

text \<open>
  \<^verbatim>\<open>parseFloat(s) + ' '\<close> for such a text: the number is printed again with its trailing
  zeros (and a bare decimal point) dropped.
\<close>

definition number_string :: "nat \<Rightarrow> string" where
  "number_string n =
     (if n mod 100 = 0 then decimal (n div 100)
      else if n mod 10 = 0 then decimal (n div 100) @ ''.'' @ [digit (n mod 100 div 10)]
      else decimal (n div 100) @ ''.'' @ [digit (n mod 100 div 10), digit (n mod 10)])"

text \<open>
  Reading an array by index: JavaScript yields \<^verbatim>\<open>undefined\<close> out of range (here
  \<open>None\<close>), and string concatenation prints that as the text \<^verbatim>\<open>undefined\<close>.
\<close>

definition index :: "'a list \<Rightarrow> nat \<Rightarrow> 'a option" where
  "index xs i = (if i < length xs then Some (xs ! i) else None)"

definition to_string :: "string option \<Rightarrow> string" where
  "to_string v = (case v of None \<Rightarrow> ''undefined'' | Some s \<Rightarrow> s)"

text \<open>
  The integer logarithm: the floor of the exact quotient \<open>ln bytes / ln k\<close> for
  \<open>bytes > 0\<close> (lemma \<open>floor_log_is_floor_of_logs\<close> below). The test \<open>k < 2\<close> only makes
  the recursion end for every base.
\<close>

function floor_log :: "nat \<Rightarrow> nat \<Rightarrow> nat" where
  "floor_log k bytes = (if bytes < k \<or> k < 2 then 0 else Suc (floor_log k (bytes div k)))"
  by pat_completeness auto
termination
  by (relation "measure snd") auto

declare floor_log.simps [simp del]

text \<open>
  \<^verbatim>\<open>Math.floor(Math.log(bytes) / Math.log(k))\<close> with \<open>k = 1024\<close>, as doubles compute it for a
  size \<open>bytes > 0\<close>. Both logarithms and their quotient are rounded, and the rounded
  quotient is a whole number already a little below a power of 1024 once the powers are
  large: it is 5 for the three sizes below \<open>1024 ^ 5\<close>, and 6 for the 48 doubles below
  \<open>1024 ^ 6\<close>, which lie 128 apart. For every other size up to \<open>2 ^ 64\<close> its floor is the
  integer logarithm; up to \<open>1024 ^ 5 - 4\<close> the two agree throughout, and at a power of 1024
  the quotient is the exponent exactly (at \<open>1024 ^ 4\<close> it is 4.0, at \<open>1024 ^ 5 - 1\<close> it is
  5.0, at \<open>1024 ^ 5 - 4\<close> it is 4.999999999999999).
\<close>

definition floor_log_quotient :: "nat \<Rightarrow> nat" where
  "floor_log_quotient bytes =
     (if 1024 ^ 5 - 3 \<le> bytes \<and> bytes < 1024 ^ 5 then 5
      else if 1024 ^ 6 - 6144 \<le> bytes \<and> bytes < 1024 ^ 6 then 6
      else floor_log 1024 bytes)"

section \<open>script.js\<close>

subsection \<open>formatFileSize\<close>

definition formatFileSize :: "nat \<Rightarrow> string" where
  "formatFileSize bytes =
     (if bytes = 0 then ''0 Bytes''
      else let k = 1024;
               sizes = [''Bytes'', ''KB'', ''MB'', ''GB''];
               i = floor_log_quotient bytes
           in number_string (toFixed2 bytes (k ^ i)) @ '' '' @ to_string (index sizes i))"

subsection \<open>The page\<close>

text \<open>
  A \<^verbatim>\<open>File\<close>: its \<^verbatim>\<open>name\<close>, its \<^verbatim>\<open>size\<close> in bytes (the Number that \<^verbatim>\<open>file.size\<close> yields)
  and its MIME \<^verbatim>\<open>type\<close>.
\<close>

record File =
  file_name :: string
  file_size :: nat
  file_type :: string

text \<open>The two flags of an event object that the listeners set.\<close>

record dom_event =
  defaultPrevented :: bool
  propagationStopped :: bool

text \<open>
  An interval registered with \<^verbatim>\<open>setInterval\<close>: its delay in milliseconds and the
  variable \<^verbatim>\<open>progress\<close> that its callback closes over.
\<close>

record timer =
  delay :: nat
  progress :: real

text \<open>
  The parts of the document and of the window that \<^verbatim>\<open>script.js\<close> reads and writes.
  \<open>progressBar_width\<close> is the number in front of the \<^verbatim>\<open>%\<close> sign. The window's interval
  timers are kept in the order of their registration; the handle that \<^verbatim>\<open>setInterval\<close>
  returns is the position in that list, counted from 1.
\<close>

record page =
  dropArea_borderColor :: string
  dropArea_backgroundColor :: string
  fileInput_files :: "File list"
  fileName_textContent :: string
  fileSize_textContent :: string
  fileInfo_display :: string
  uploadPrompt_display :: string
  processingOverlay_display :: string
  submitBtn_disabled :: bool
  progressBar_width :: real
  progressText_textContent :: string
  processingText_textContent :: string
  dataset_progressInterval :: "string option"
  ai_options_checked :: "bool list"
  alerts :: "string list"
  timers :: "timer list"

subsection \<open>Drag and drop\<close>

definition preventDefaults :: "dom_event \<Rightarrow> dom_event" where
  "preventDefaults e = e\<lparr>defaultPrevented := True, propagationStopped := True\<rparr>"

definition highlight :: "page \<Rightarrow> page" where
  "highlight d = d\<lparr>dropArea_borderColor := ''#2563eb'', dropArea_backgroundColor := ''#f8fafc''\<rparr>"

definition unhighlight :: "page \<Rightarrow> page" where
  "unhighlight d = d\<lparr>dropArea_borderColor := ''#e2e8f0'', dropArea_backgroundColor := []\<rparr>"

definition updateFileInfo :: "File \<Rightarrow> page \<Rightarrow> page" where
  "updateFileInfo file d =
     d\<lparr>fileName_textContent := file_name file,
       fileSize_textContent := formatFileSize (file_size file),
       fileInfo_display := ''flex'',
       uploadPrompt_display := ''none''\<rparr>"

definition handleFiles :: "File list \<Rightarrow> page \<Rightarrow> page" where
  "handleFiles files d =
     (if length files > 0
      then let file = files ! 0 in (updateFileInfo file d)\<lparr>fileInput_files := files\<rparr>
      else d)"

text \<open>\<^verbatim>\<open>handleDrop(e)\<close>, with \<open>files\<close> the event's \<^verbatim>\<open>dataTransfer.files\<close>.\<close>

definition handleDrop :: "File list \<Rightarrow> page \<Rightarrow> page" where
  "handleDrop files d = handleFiles files d"

text \<open>
  The listeners of the drop area, per event type in the order of their registration:
  \<^verbatim>\<open>preventDefaults\<close>, then \<^verbatim>\<open>highlight\<close> or \<^verbatim>\<open>unhighlight\<close>, then (for a drop)
  \<^verbatim>\<open>handleDrop\<close>.
\<close>

definition dropArea_dragenter :: "dom_event \<times> page \<Rightarrow> dom_event \<times> page" where
  "dropArea_dragenter = (\<lambda>(e, d). (preventDefaults e, highlight d))"

definition dropArea_dragover :: "dom_event \<times> page \<Rightarrow> dom_event \<times> page" where
  "dropArea_dragover = (\<lambda>(e, d). (preventDefaults e, highlight d))"

definition dropArea_dragleave :: "dom_event \<times> page \<Rightarrow> dom_event \<times> page" where
  "dropArea_dragleave = (\<lambda>(e, d). (preventDefaults e, unhighlight d))"

definition dropArea_drop :: "File list \<Rightarrow> dom_event \<times> page \<Rightarrow> dom_event \<times> page" where
  "dropArea_drop files = (\<lambda>(e, d). (preventDefaults e, handleDrop files (unhighlight d)))"

subsection \<open>File input and remove button\<close>

text \<open>The \<^verbatim>\<open>change\<close> listener of the file input (\<^verbatim>\<open>this\<close> is the input).\<close>

definition fileInput_change :: "page \<Rightarrow> page" where
  "fileInput_change d =
     (if length (fileInput_files d) > 0 then updateFileInfo (fileInput_files d ! 0) d else d)"

text \<open>
  The \<^verbatim>\<open>click\<close> listener of the remove button. Setting the value of a file input to
  the empty string empties its list of selected files.
\<close>

definition removeFileBtn_click :: "dom_event \<times> page \<Rightarrow> dom_event \<times> page" where
  "removeFileBtn_click = (\<lambda>(e, d).
     (e\<lparr>propagationStopped := True\<rparr>,
      d\<lparr>fileInput_files := [], fileInfo_display := ''none'', uploadPrompt_display := ''block''\<rparr>))"

subsection \<open>Form submission and simulated progress\<close>

text \<open>
  The \<^verbatim>\<open>submit\<close> listener: overlay, submit button, \<^verbatim>\<open>let progress = 0\<close>,
  \<^verbatim>\<open>setInterval(callback, 500)\<close> and the handle stored in the form's data set (a data set
  holds strings).
\<close>

definition uploadForm_submit :: "page \<Rightarrow> page" where
  "uploadForm_submit d =
     (let d1 = d\<lparr>processingOverlay_display := ''flex''\<rparr>;
          d2 = d1\<lparr>submitBtn_disabled := True\<rparr>;
          d3 = d2\<lparr>timers := timers d2 @ [\<lparr>delay = 500, progress = 0\<rparr>]\<rparr>;
          progressInterval = length (timers d3)
      in d3\<lparr>dataset_progressInterval := Some (decimal progressInterval)\<rparr>)"

text \<open>
  One run of the interval callback of the timer with handle \<open>h\<close>, where \<open>r\<close> is the value
  that \<^verbatim>\<open>Math.random()\<close> returns. \<^verbatim>\<open>Math.round(x)\<close> is \<open>\<lfloor>x + 1/2\<rfloor>\<close>. A handle that names
  no timer has no callback to run.
\<close>

definition progressInterval_callback :: "nat \<Rightarrow> real \<Rightarrow> page \<Rightarrow> page" where
  "progressInterval_callback h r d =
     (if h = 0 \<or> length (timers d) < h then d
      else let t = timers d ! (h - 1);
               p = progress t + r * 10;
               p = (if p > 90 then 90 else p);
               d1 = d\<lparr>timers := (timers d)[h - 1 := t\<lparr>progress := p\<rparr>]\<rparr>;
               d2 = d1\<lparr>progressBar_width := p\<rparr>;
               d3 = d2\<lparr>progressText_textContent := decimal (nat \<lfloor>p + 1 / 2\<rfloor>) @ ''% Complete''\<rparr>
           in if p < 30 then d3\<lparr>processingText_textContent := ''Validating file format...''\<rparr>
              else if p < 60 then d3\<lparr>processingText_textContent := ''Initializing AI agent...''\<rparr>
              else d3\<lparr>processingText_textContent := ''Cleaning and enriching data...''\<rparr>)"

subsection \<open>loadSample\<close>

definition sampleCSV :: string where
  "sampleCSV =
     ''name,address,phone,specialty,license,city\<newline>'' @
     ''Dr. Amit Sharma,Near City Mall,987654,heart doctor,,Delhi\<newline>'' @
     ''Dr. Priya Patel,14th Cross MG Road,8765432109,dermatologist,KA/12345/2020,Bangalore\<newline>'' @
     ''Dr. Rajesh Kumar,City Hospital Andheri,7654321098,orthopedic surgeon,MH/67890/2019,Mumbai\<newline>'' @
     ''Dr. Anjali Mehta,Green Park South Delhi,6543210987,pediatrician,DL/54321/2021,Delhi\<newline>'' @
     ''Dr. Vikram Singh,Sector 17 Chandigarh,5432109876,neurologist,CH/98765/2018,Chandigarh''"

definition loadSample :: "page \<Rightarrow> page" where
  "loadSample d =
     (let file = \<lparr>file_name = ''sample_providers.csv'', file_size = length sampleCSV,
                  file_type = ''text/csv''\<rparr>;
          d1 = d\<lparr>fileInput_files := [file]\<rparr>;
          d2 = updateFileInfo file d1;
          d3 = d2\<lparr>ai_options_checked := map (\<lambda>checkbox. True) (ai_options_checked d2)\<rparr>
      in d3\<lparr>alerts := alerts d3 @
           [''Sample data loaded! Click '' @ [CHR 0x22] @ ''Process with AI Agent'' @
            [CHR 0x22] @ '' to see it in action.'']\<rparr>)"

subsection \<open>The page as a state machine\<close>

text \<open>
  What can happen on the page: the drag events, a drop carrying a file list, the user
  picking files in the file dialog (the browser stores them in the input and fires
  \<^verbatim>\<open>change\<close>), a click on the remove button, a submission of the form, one firing of
  the interval with handle \<open>h\<close> where \<^verbatim>\<open>Math.random()\<close> returns \<open>r\<close>, and a call of
  \<^verbatim>\<open>loadSample\<close>. The tooltip and logo code of the script touches none of the parts in
  \<open>page\<close> and is left out.
\<close>

datatype event =
    DragEnter
  | DragOver
  | DragLeave
  | Drop "File list"
  | Pick "File list"
  | RemoveClick
  | Submit
  | Tick nat real
  | LoadSample

definition new_event :: dom_event where
  "new_event = \<lparr>defaultPrevented = False, propagationStopped = False\<rparr>"

fun step :: "event \<Rightarrow> page \<Rightarrow> page" where
  "step DragEnter d = snd (dropArea_dragenter (new_event, d))"
| "step DragOver d = snd (dropArea_dragover (new_event, d))"
| "step DragLeave d = snd (dropArea_dragleave (new_event, d))"
| "step (Drop files) d = snd (dropArea_drop files (new_event, d))"
| "step (Pick files) d = fileInput_change (d\<lparr>fileInput_files := files\<rparr>)"
| "step RemoveClick d = snd (removeFileBtn_click (new_event, d))"
| "step Submit d = uploadForm_submit d"
| "step (Tick h r) d = progressInterval_callback h r d"
| "step LoadSample d = loadSample d"

fun run :: "event list \<Rightarrow> page \<Rightarrow> page" where
  "run [] d = d"
| "run (e # es) d = run es (step e d)"

text \<open>\<^verbatim>\<open>Math.random()\<close> returns a number in \<open>[0, 1)\<close>.\<close>

fun valid_event :: "event \<Rightarrow> bool" where
  "valid_event (Tick h r) = (0 \<le> r \<and> r < 1)"
| "valid_event e = True"

text \<open>
  An example of a page right after loading, before any event: nothing selected, no timer.
  The markup that fixes the initial texts and styles is not part of the scripts; the
  general theorems hold for every page, and this one serves as a concrete input.
\<close>

definition page_load :: page where
  "page_load =
     \<lparr>dropArea_borderColor = [], dropArea_backgroundColor = [], fileInput_files = [],
      fileName_textContent = [], fileSize_textContent = [], fileInfo_display = ''none'',
      uploadPrompt_display = ''block'', processingOverlay_display = ''none'',
      submitBtn_disabled = False, progressBar_width = 0,
      progressText_textContent = ''0% Complete'', processingText_textContent = [],
      dataset_progressInterval = None, ai_options_checked = [False, False, False],
      alerts = [], timers = []\<rparr>"

subsection \<open>What the form posts\<close>

text \<open>The content of a post of the upload form: the files and the option checkboxes.\<close>

record form_post =
  post_files :: "File list"
  post_options :: "bool list"

text \<open>
  Modelled from the spec: the markup of the upload form and the posting of it by the
  browser are not among the scripts. The specification has the form posted as multipart
  form data carrying the selected file and any option checkboxes; a browser puts one part
  into the post for each file in the list of the file input. The submit listener does
  not cancel the event, so the post follows the listener and carries what the file input
  holds then.
\<close>

definition uploadForm_post :: "page \<Rightarrow> form_post" where
  "uploadForm_post d =
     \<lparr>post_files = fileInput_files (uploadForm_submit d),
      post_options = ai_options_checked (uploadForm_submit d)\<rparr>"

section \<open>The second variant of the widget\<close>

text \<open>
  The smaller script: drop zone with a \<^verbatim>\<open>dragging\<close> class, file input, a container for
  the selected file and a progress container. \<open>intervals2\<close> are the window's interval
  timers; no listener of this script registers one.
\<close>

record page2 =
  dropZone_dragging :: bool
  fileInput2_files :: "File list"
  selectedFileContainer_innerHTML :: string
  progressContainer_display :: string
  intervals2 :: "timer list"

datatype js_error = TypeError

text \<open>
  \<^verbatim>\<open>showFile(file)\<close>: reading \<^verbatim>\<open>file.size\<close> of \<^verbatim>\<open>undefined\<close> throws a \<^verbatim>\<open>TypeError\<close>.
\<close>

definition showFile :: "File option \<Rightarrow> page2 \<Rightarrow> js_error + page2" where
  "showFile file d =
     (case file of
        None \<Rightarrow> Inl TypeError
      | Some f \<Rightarrow>
          let size = toFixed2_string (toFixed2 (file_size f) 1024)
          in Inr (d\<lparr>selectedFileContainer_innerHTML :=
                     ''<strong>'' @ file_name f @ ''</strong> ('' @ size @ '' KB)''\<rparr>))"

text \<open>
  The three \<^verbatim>\<open>drop\<close> listeners of the drop zone in the order of their registration.
  The result is the event, the page as the listeners leave it, and the exception that
  the last listener throws, if any; what it wrote before throwing stays written.
\<close>

definition dropZone_drop ::
  "File list \<Rightarrow> dom_event \<times> page2 \<Rightarrow> dom_event \<times> page2 \<times> js_error option" where
  "dropZone_drop files = (\<lambda>(e, d).
     let e1 = e\<lparr>defaultPrevented := True, propagationStopped := True\<rparr>;
         d1 = d\<lparr>dropZone_dragging := False\<rparr>;
         d2 = d1\<lparr>fileInput2_files := files\<rparr>
     in case showFile (index (fileInput2_files d2) 0) d2 of
          Inl err \<Rightarrow> (e1, d2, Some err)
        | Inr d3 \<Rightarrow> (e1, d3, None))"

definition fileInput2_change :: "page2 \<Rightarrow> js_error + page2" where
  "fileInput2_change d =
     (if length (fileInput2_files d) \<noteq> 0 then showFile (index (fileInput2_files d) 0) d
      else Inr d)"

definition uploadForm2_submit :: "page2 \<Rightarrow> page2" where
  "uploadForm2_submit d = d\<lparr>progressContainer_display := ''flex''\<rparr>"

text \<open>
  Modelled from the spec: the files that the post of the second variant's form carries,
  as for \<open>uploadForm_post\<close> (the markup of the form is not among the scripts).
\<close>

definition uploadForm2_post :: "page2 \<Rightarrow> File list" where
  "uploadForm2_post d = fileInput2_files (uploadForm2_submit d)"

text \<open>An example of a freshly loaded page of the second variant.\<close>

definition page2_load :: page2 where
  "page2_load =
     \<lparr>dropZone_dragging = False, fileInput2_files = [], selectedFileContainer_innerHTML = [],
      progressContainer_display = ''none'', intervals2 = []\<rparr>"

section \<open>Example inputs\<close>

text \<open>Two files as a user may drop them together, and a page on which one is selected.\<close>

definition providers_csv :: File where
  "providers_csv = \<lparr>file_name = ''providers.csv'', file_size = 2048, file_type = ''text/csv''\<rparr>"

definition notes_txt :: File where
  "notes_txt = \<lparr>file_name = ''notes.txt'', file_size = 1536, file_type = ''text/plain''\<rparr>"

definition page2_selected :: page2 where
  "page2_selected =
     page2_load\<lparr>fileInput2_files := [providers_csv],
       selectedFileContainer_innerHTML := ''<strong>providers.csv</strong> (2.00 KB)''\<rparr>"

section \<open>Arithmetic of the size format\<close>

lemma floor_log_bounds:
  "2 \<le> k \<Longrightarrow> 0 < b \<Longrightarrow> k ^ floor_log k b \<le> b \<and> b < k ^ Suc (floor_log k b)"
proof (induction k b rule: floor_log.induct)
  case (1 k b)
  show ?case
  proof (cases "b < k")
    case True
    then have "floor_log k b = 0" by (subst floor_log.simps) simp
    with True 1(3) show ?thesis by simp
  next
    case False
    with 1(2) have rec: "\<not> (b < k \<or> k < 2)" by simp
    from False 1(2) have pos: "0 < b div k"
      by (simp add: div_greater_zero_iff)
    from 1(1) [OF rec 1(2) pos]
    have lo: "k ^ floor_log k (b div k) \<le> b div k"
      and hi: "b div k < k ^ Suc (floor_log k (b div k))" by simp_all
    have ui: "floor_log k b = Suc (floor_log k (b div k))"
      using rec by (subst floor_log.simps) simp
    from lo have "k * k ^ floor_log k (b div k) \<le> k * (b div k)"
      by simp
    also have "\<dots> \<le> b" by simp
    finally have A: "k ^ floor_log k b \<le> b" by (simp only: ui power_Suc)
    from hi have "Suc (b div k) \<le> k ^ Suc (floor_log k (b div k))" by simp
    then have "k * Suc (b div k) \<le> k * k ^ Suc (floor_log k (b div k))"
      by (rule mult_le_mono2)
    moreover have "b < k * Suc (b div k)"
      using 1(2) by (simp add: dividend_less_times_div)
    ultimately have B: "b < k ^ Suc (floor_log k b)"
      by (simp only: ui power_Suc)
    from A B show ?thesis by blast
  qed
qed

lemma floor_log_unique:
  assumes "2 \<le> k" and "k ^ n \<le> b" and "b < k ^ Suc n"
  shows "floor_log k b = n"
proof -
  have k1: "1 < k" using assms(1) by simp
  have pos: "0 < b" using assms(1,2) by (cases "b = 0") simp_all
  from floor_log_bounds [OF assms(1) pos]
  have lo: "k ^ floor_log k b \<le> b" and hi: "b < k ^ Suc (floor_log k b)"
    by simp_all
  have "k ^ n < k ^ Suc (floor_log k b)"
    using assms(2) hi by (rule le_less_trans)
  then have a: "n < Suc (floor_log k b)"
    using k1 by (simp only: power_strict_increasing_iff)
  have "k ^ floor_log k b < k ^ Suc n"
    using lo assms(3) by (rule le_less_trans)
  then have b: "floor_log k b < Suc n"
    using k1 by (simp only: power_strict_increasing_iff)
  from a b show ?thesis by simp
qed

lemma floor_log_is_floor_of_logs:
  assumes "2 \<le> k" and "0 < b"
  shows "int (floor_log k b) = \<lfloor>ln (real b) / ln (real k)\<rfloor>"
proof -
  from floor_log_bounds [OF assms]
  have "k ^ floor_log k b \<le> b" and "b < k ^ (floor_log k b + 1)" by simp_all
  then have "\<lfloor>log (real k) (real b)\<rfloor> = int (floor_log k b)"
    using assms(1) by (rule floor_log_nat_eq_if)
  then show ?thesis by (simp add: log_def)
qed

lemma toFixed2_is_round_half_up:
  assumes "0 < d"
  shows "int (toFixed2 b d) = \<lfloor>100 * (real b / real d) + 1 / 2\<rfloor>"
proof -
  have "100 * (real b / real d) + 1 / 2 = real (200 * b + d) / real (2 * d)"
    using assms by (simp add: field_simps)
  then have "\<lfloor>100 * (real b / real d) + 1 / 2\<rfloor> = \<lfloor>real (200 * b + d) / real (2 * d)\<rfloor>"
    by simp
  also have "\<dots> = int ((200 * b + d) div (2 * d))"
    by (simp only: floor_divide_of_nat_eq)
  finally show ?thesis by (simp add: toFixed2_def)
qed

section \<open>The size format\<close>

text \<open>
  Where the rounded quotient and the integer logarithm agree and where they differ.
\<close>

lemma floor_log_quotient_exact:
  "b < 1024 ^ 5 - 3 \<Longrightarrow> floor_log_quotient b = floor_log 1024 b"
  by (simp add: floor_log_quotient_def)

lemma floor_log_quotient_rounds_up:
  "floor_log_quotient (1024 ^ 5 - 4) = 4 \<and> floor_log_quotient (1024 ^ 5 - 3) = 5 \<and>
   floor_log_quotient (1024 ^ 5 - 1) = 5 \<and> floor_log_quotient (1024 ^ 5) = 5 \<and>
   floor_log_quotient (1024 ^ 6 - 6272) = 5 \<and> floor_log_quotient (1024 ^ 6 - 6144) = 6 \<and>
   floor_log_quotient (1024 ^ 6 - 128) = 6 \<and> floor_log_quotient (1024 ^ 6) = 6"
  by (simp add: floor_log_quotient_def floor_log.simps)

lemma formatFileSize_eval:
  assumes "0 < b" and "floor_log_quotient b = i"
    and "number_string (toFixed2 b (1024 ^ i)) = s"
  shows "formatFileSize b = s @ '' '' @ to_string (index [''Bytes'', ''KB'', ''MB'', ''GB''] i)"
  using assms by (simp add: formatFileSize_def Let_def)

text \<open>The examples of the specification, and the file of its end-to-end scenario.\<close>

lemma formatFileSize_examples:
  "formatFileSize 0 = ''0 Bytes'' \<and> formatFileSize 1024 = ''1 KB'' \<and>
   formatFileSize 1048576 = ''1 MB'' \<and> formatFileSize 1536 = ''1.5 KB''"
proof (intro conjI)
  show "formatFileSize 0 = ''0 Bytes''" by (simp add: formatFileSize_def)
  have "formatFileSize 1024 = ''1'' @ '' '' @ to_string (index [''Bytes'', ''KB'', ''MB'', ''GB''] 1)"
    by (rule formatFileSize_eval)
       (simp_all add: floor_log_quotient_def floor_log.simps toFixed2_def number_string_def
          decimal.simps digit_def)
  then show "formatFileSize 1024 = ''1 KB''" by (simp add: index_def to_string_def)
  have "formatFileSize 1048576 = ''1'' @ '' '' @ to_string (index [''Bytes'', ''KB'', ''MB'', ''GB''] 2)"
    by (rule formatFileSize_eval)
       (simp_all add: floor_log_quotient_def floor_log.simps toFixed2_def number_string_def
          decimal.simps digit_def)
  then show "formatFileSize 1048576 = ''1 MB''" by (simp add: index_def to_string_def)
  have "formatFileSize 1536 = ''1.5'' @ '' '' @ to_string (index [''Bytes'', ''KB'', ''MB'', ''GB''] 1)"
    by (rule formatFileSize_eval)
       (simp_all add: floor_log_quotient_def floor_log.simps toFixed2_def number_string_def
          decimal.simps digit_def)
  then show "formatFileSize 1536 = ''1.5 KB''" by (simp add: index_def to_string_def)
qed

lemma formatFileSize_2048: "formatFileSize 2048 = ''2 KB''"
proof -
  have "formatFileSize 2048 = ''2'' @ '' '' @ to_string (index [''Bytes'', ''KB'', ''MB'', ''GB''] 1)"
    by (rule formatFileSize_eval)
       (simp_all add: floor_log_quotient_def floor_log.simps toFixed2_def number_string_def
          decimal.simps digit_def)
  then show ?thesis by (simp add: index_def to_string_def)
qed

lemma showFile_size_2048: "toFixed2_string (toFixed2 2048 1024) = ''2.00''"
  by (simp add: toFixed2_string_def toFixed2_def decimal.simps digit_def)

text \<open>
  Just below \<open>1024 ^ 5\<close>: four bytes below, the quotient is still under 5 and the size
  prints as 1024 of the unit with index 4; one byte below, the quotient has rounded up
  to 5 and the size prints as 1 of the unit with index 5.
\<close>

lemma formatFileSize_below_1024_5:
  "formatFileSize (1024 ^ 5 - 4) = ''1024 undefined'' \<and>
   formatFileSize (1024 ^ 5 - 1) = ''1 undefined'' \<and>
   formatFileSize (1024 ^ 5) = ''1 undefined''"
proof (intro conjI)
  have "formatFileSize (1024 ^ 5 - 4) =
          ''1024'' @ '' '' @ to_string (index [''Bytes'', ''KB'', ''MB'', ''GB''] 4)"
    by (rule formatFileSize_eval)
       (simp_all add: floor_log_quotient_def floor_log.simps toFixed2_def number_string_def
          decimal.simps digit_def)
  then show "formatFileSize (1024 ^ 5 - 4) = ''1024 undefined''"
    by (simp add: index_def to_string_def)
  have "formatFileSize (1024 ^ 5 - 1) =
          ''1'' @ '' '' @ to_string (index [''Bytes'', ''KB'', ''MB'', ''GB''] 5)"
    by (rule formatFileSize_eval)
       (simp_all add: floor_log_quotient_def floor_log.simps toFixed2_def number_string_def
          decimal.simps digit_def)
  then show "formatFileSize (1024 ^ 5 - 1) = ''1 undefined''"
    by (simp add: index_def to_string_def)
  have "formatFileSize (1024 ^ 5) =
          ''1'' @ '' '' @ to_string (index [''Bytes'', ''KB'', ''MB'', ''GB''] 5)"
    by (rule formatFileSize_eval)
       (simp_all add: floor_log_quotient_def floor_log.simps toFixed2_def number_string_def
          decimal.simps digit_def)
  then show "formatFileSize (1024 ^ 5) = ''1 undefined''"
    by (simp add: index_def to_string_def)
qed

lemma floor_log_less_4:
  assumes "0 < b" and "b < 1024 ^ 4"
  shows "floor_log 1024 b < 4"
proof -
  have "(1024::nat) ^ floor_log 1024 b \<le> b"
    using floor_log_bounds [of 1024 b] assms(1) by simp
  then have "(1024::nat) ^ floor_log 1024 b < 1024 ^ 4"
    using assms(2) by (rule le_less_trans)
  then show ?thesis by (simp only: power_strict_increasing_iff)
qed

lemma floor_log_ge_4:
  assumes "1024 ^ 4 \<le> b"
  shows "4 \<le> floor_log 1024 b"
proof -
  from assms have pos: "0 < b" by (cases "b = 0") simp_all
  have "b < 1024 ^ Suc (floor_log 1024 b)"
    using floor_log_bounds [of 1024 b] pos by simp
  with assms have "(1024::nat) ^ 4 < 1024 ^ Suc (floor_log 1024 b)"
    by (rule le_less_trans)
  then have "4 < Suc (floor_log 1024 b)" by (simp only: power_strict_increasing_iff)
  then show ?thesis by simp
qed

lemma floor_log_quotient_below_terabyte:
  assumes "b < 1024 ^ 4"
  shows "floor_log_quotient b = floor_log 1024 b"
  using assms by (simp add: floor_log_quotient_def)

lemma floor_log_quotient_ge_4:
  assumes "1024 ^ 4 \<le> b"
  shows "4 \<le> floor_log_quotient b"
  using floor_log_ge_4 [OF assms] by (simp add: floor_log_quotient_def)

text \<open>
  Below \<open>1024 ^ 4\<close> bytes the format is as specified: the unit is the largest of the four
  whose power of 1024 is at most the size, and the number is the quotient rounded to
  hundredths (half up), printed without trailing zeros.
\<close>

lemma formatFileSize_below_terabyte:
  assumes "0 < b" and "b < 1024 ^ 4"
  shows "\<exists>i<4. 1024 ^ i \<le> b \<and> b < 1024 ^ Suc i \<and>
           int (toFixed2 b (1024 ^ i)) = \<lfloor>100 * (real b / 1024 ^ i) + 1 / 2\<rfloor> \<and>
           formatFileSize b =
             number_string (toFixed2 b (1024 ^ i)) @ '' '' @ [''Bytes'', ''KB'', ''MB'', ''GB''] ! i"
proof (intro exI conjI)
  let ?i = "floor_log 1024 b"
  have q: "floor_log_quotient b = ?i" using assms(2) by (rule floor_log_quotient_below_terabyte)
  show i: "?i < 4" using assms by (rule floor_log_less_4)
  show "1024 ^ ?i \<le> b" "b < 1024 ^ Suc ?i"
    using floor_log_bounds [of 1024 b] assms(1) by simp_all
  show "int (toFixed2 b (1024 ^ ?i)) = \<lfloor>100 * (real b / 1024 ^ ?i) + 1 / 2\<rfloor>"
    using toFixed2_is_round_half_up [of "1024 ^ ?i" b] by simp
  show "formatFileSize b =
          number_string (toFixed2 b (1024 ^ ?i)) @ '' '' @ [''Bytes'', ''KB'', ''MB'', ''GB''] ! ?i"
    using assms(1) i by (simp add: formatFileSize_def q index_def to_string_def Let_def)
qed

text \<open>
  Claim C1 (for every byte count, the size is scaled by the largest of the units Bytes,
  KB, MB, GB whose scaled value is at least 1): the code breaks it at \<open>1024 ^ 4\<close> bytes.
  The largest of the four units is GB, so the claim gives \<^verbatim>\<open>1024 GB\<close>; the code computes
  the unit index 4, reads past the end of the four labels and prints \<^verbatim>\<open>1 undefined\<close>.
  Below \<open>1024 ^ 4\<close> the claim holds (\<open>formatFileSize_below_terabyte\<close>,
  \<open>formatFileSize_examples\<close>).
\<close>

theorem formatFileSize_terabyte: "formatFileSize (1024 ^ 4) = ''1 undefined''"
proof -
  have "formatFileSize (1024 ^ 4) =
          ''1'' @ '' '' @ to_string (index [''Bytes'', ''KB'', ''MB'', ''GB''] 4)"
    by (rule formatFileSize_eval)
       (simp_all add: floor_log_quotient_def floor_log.simps toFixed2_def number_string_def
          decimal.simps digit_def)
  then show ?thesis by (simp add: index_def to_string_def)
qed

text \<open>
  Claim C9: the unit label is defined exactly for the sizes below \<open>1024 ^ 4\<close>. For a
  positive size below that bound the computed unit index is less than 4, it names one of
  the four labels, and the result is the scaled number followed by that label. From
  \<open>1024 ^ 4\<close> on the computed index is 4 or more, the read of the label array yields
  nothing, and the result ends in the text \<^verbatim>\<open>undefined\<close>; for the sizes that are exact
  integers as Numbers (below \<open>2 ^ 53\<close>) the result is the scaled number followed by that
  text.
\<close>

theorem formatFileSize_label_undefined_iff:
  assumes "0 < b"
  shows "(b < 1024 ^ 4 \<longrightarrow>
            floor_log_quotient b < 4 \<and>
            index [''Bytes'', ''KB'', ''MB'', ''GB''] (floor_log_quotient b)
              = Some ([''Bytes'', ''KB'', ''MB'', ''GB''] ! floor_log_quotient b) \<and>
            formatFileSize b =
              number_string (toFixed2 b (1024 ^ floor_log_quotient b)) @ '' '' @
              [''Bytes'', ''KB'', ''MB'', ''GB''] ! floor_log_quotient b) \<and>
         (1024 ^ 4 \<le> b \<longrightarrow>
            4 \<le> floor_log_quotient b \<and>
            index [''Bytes'', ''KB'', ''MB'', ''GB''] (floor_log_quotient b) = None \<and>
            (\<exists>s. formatFileSize b = s @ '' undefined'')) \<and>
         (1024 ^ 4 \<le> b \<and> b < 2 ^ 53 \<longrightarrow>
            formatFileSize b =
              number_string (toFixed2 b (1024 ^ floor_log_quotient b)) @ '' undefined'')"
proof (intro conjI impI)
  assume lt: "b < 1024 ^ 4"
  then have q: "floor_log_quotient b = floor_log 1024 b"
    by (rule floor_log_quotient_below_terabyte)
  from assms lt have "floor_log 1024 b < 4" by (rule floor_log_less_4)
  with q show i: "floor_log_quotient b < 4" by simp
  then show some: "index [''Bytes'', ''KB'', ''MB'', ''GB''] (floor_log_quotient b)
              = Some ([''Bytes'', ''KB'', ''MB'', ''GB''] ! floor_log_quotient b)"
    by (simp add: index_def)
  show "formatFileSize b =
          number_string (toFixed2 b (1024 ^ floor_log_quotient b)) @ '' '' @
          [''Bytes'', ''KB'', ''MB'', ''GB''] ! floor_log_quotient b"
    using assms some by (simp add: formatFileSize_def to_string_def Let_def)
next
  assume ge: "1024 ^ 4 \<le> b"
  then show i: "4 \<le> floor_log_quotient b" by (rule floor_log_quotient_ge_4)
  then show none: "index [''Bytes'', ''KB'', ''MB'', ''GB''] (floor_log_quotient b) = None"
    by (simp add: index_def)
  have "formatFileSize b =
          number_string (toFixed2 b (1024 ^ floor_log_quotient b)) @ '' undefined''"
    using assms none by (simp add: formatFileSize_def to_string_def Let_def)
  then show "\<exists>s. formatFileSize b = s @ '' undefined''" by blast
next
  assume "1024 ^ 4 \<le> b \<and> b < 2 ^ 53"
  then have "1024 ^ 4 \<le> b" by simp
  then have "4 \<le> floor_log_quotient b" by (rule floor_log_quotient_ge_4)
  then have none: "index [''Bytes'', ''KB'', ''MB'', ''GB''] (floor_log_quotient b) = None"
    by (simp add: index_def)
  show "formatFileSize b =
          number_string (toFixed2 b (1024 ^ floor_log_quotient b)) @ '' undefined''"
    using assms none by (simp add: formatFileSize_def to_string_def Let_def)
qed

theorem formatFileSize_label_undefined_iff_witness:
  "(0::nat) < 1125899906842623 \<and> (1024::nat) ^ 4 \<le> 1125899906842623 \<and>
   (1125899906842623::nat) < 2 ^ 53 \<and>
   floor_log_quotient 1125899906842623 = 5 \<and>
   index [''Bytes'', ''KB'', ''MB'', ''GB''] (floor_log_quotient 1125899906842623) = None \<and>
   formatFileSize 1125899906842623 = ''1 undefined'' \<and>
   (0::nat) < 1536 \<and> (1536::nat) < 1024 ^ 4 \<and>
   floor_log_quotient 1536 = 1 \<and>
   formatFileSize 1536 = ''1.5 KB''"
proof -
  have h: "(0::nat) < 1125899906842623" by simp
  have g: "(1024::nat) ^ 4 \<le> 1125899906842623 \<and> (1125899906842623::nat) < 2 ^ 53" by simp
  have i: "floor_log_quotient 1125899906842623 = 5" by (simp add: floor_log_quotient_def)
  have v: "number_string
             (toFixed2 1125899906842623 (1024 ^ floor_log_quotient 1125899906842623)) = ''1''"
    by (simp add: i number_string_def toFixed2_def digit_def decimal.simps)
  from formatFileSize_label_undefined_iff [OF h] g
  have big: "index [''Bytes'', ''KB'', ''MB'', ''GB''] (floor_log_quotient 1125899906842623) = None \<and>
        formatFileSize 1125899906842623 =
          number_string
            (toFixed2 1125899906842623 (1024 ^ floor_log_quotient 1125899906842623)) @
          '' undefined''"
    by blast
  have h': "(0::nat) < 1536" by simp
  have g': "(1536::nat) < 1024 ^ 4" by simp
  have i': "floor_log_quotient 1536 = 1" by (simp add: floor_log_quotient_def floor_log.simps)
  have v': "number_string (toFixed2 1536 (1024 ^ floor_log_quotient 1536)) = ''1.5''"
    by (simp add: i' number_string_def toFixed2_def digit_def decimal.simps)
  from formatFileSize_label_undefined_iff [OF h'] g'
  have small: "formatFileSize 1536 =
          number_string (toFixed2 1536 (1024 ^ floor_log_quotient 1536)) @ '' '' @
          [''Bytes'', ''KB'', ''MB'', ''GB''] ! floor_log_quotient 1536"
    by blast
  have l: "[''Bytes'', ''KB'', ''MB'', ''GB''] ! floor_log_quotient 1536 = ''KB''"
    by (simp add: i')
  from big v i small v' l i' show ?thesis by simp
qed

section \<open>The interval timers\<close>

lemma timers_unhighlight: "timers (unhighlight d) = timers d"
  by (simp add: unhighlight_def)

lemma timers_highlight: "timers (highlight d) = timers d"
  by (simp add: highlight_def)

lemma timers_updateFileInfo: "timers (updateFileInfo f d) = timers d"
  by (simp add: updateFileInfo_def)

lemma timers_handleFiles: "timers (handleFiles fs d) = timers d"
  by (simp add: handleFiles_def timers_updateFileInfo)

lemma timers_submit: "timers (uploadForm_submit d) = timers d @ [\<lparr>delay = 500, progress = 0\<rparr>]"
  by (simp add: uploadForm_submit_def Let_def)

lemma timers_callback:
  "timers (progressInterval_callback h r d) =
     (if h = 0 \<or> length (timers d) < h then timers d
      else (timers d)[h - 1 := (timers d ! (h - 1))\<lparr>progress :=
             (if progress (timers d ! (h - 1)) + r * 10 > 90 then 90
              else progress (timers d ! (h - 1)) + r * 10)\<rparr>])"
  by (simp add: progressInterval_callback_def Let_def)

text \<open>Only a submission and a firing of an interval touch the timers.\<close>

lemma timers_step:
  "timers (step e d) =
     (case e of
        Submit \<Rightarrow> timers d @ [\<lparr>delay = 500, progress = 0\<rparr>]
      | Tick h r \<Rightarrow> timers (progressInterval_callback h r d)
      | _ \<Rightarrow> timers d)"
  by (cases e)
     (simp_all add: dropArea_dragenter_def dropArea_dragover_def dropArea_dragleave_def
        dropArea_drop_def handleDrop_def timers_handleFiles timers_highlight timers_unhighlight
        fileInput_change_def timers_updateFileInfo removeFileBtn_click_def loadSample_def
        timers_submit Let_def)

lemma timers_step_length: "length (timers d) \<le> length (timers (step e d))"
  by (simp add: timers_step timers_callback split: event.split)

lemma timers_step_delay:
  assumes "i < length (timers d)"
  shows "delay (timers (step e d) ! i) = delay (timers d ! i)"
  using assms
  by (auto simp add: timers_step timers_callback nth_append nth_list_update split: event.split)

lemma timers_callback_capped:
  assumes "\<forall>t\<in>set (timers d). progress t \<le> 90"
  shows "\<forall>t\<in>set (timers (progressInterval_callback h r d)). progress t \<le> 90"
proof
  fix t assume "t \<in> set (timers (progressInterval_callback h r d))"
  then have "t \<in> set (timers d) \<or> progress t \<le> 90"
    unfolding timers_callback
    by (auto dest!: set_update_subset_insert [THEN subsetD] split: if_splits)
  with assms show "progress t \<le> 90" by blast
qed

lemma timers_step_capped:
  assumes "\<forall>t\<in>set (timers d). progress t \<le> 90"
  shows "\<forall>t\<in>set (timers (step e d)). progress t \<le> 90"
  using assms timers_callback_capped [OF assms]
  by (simp add: timers_step split: event.split)

lemma timers_step_mono:
  assumes "valid_event e" and "\<forall>t\<in>set (timers d). progress t \<le> 90" and "i < length (timers d)"
  shows "progress (timers d ! i) \<le> progress (timers (step e d) ! i)"
proof -
  from assms(2,3) have "progress (timers d ! i) \<le> 90" by simp
  then show ?thesis
    using assms(1,3)
    by (auto simp add: timers_step timers_callback nth_list_update nth_append split: event.split)
qed

lemma run_capped:
  "\<forall>t\<in>set (timers d). progress t \<le> 90 \<Longrightarrow> \<forall>t\<in>set (timers (run es d)). progress t \<le> 90"
proof (induction es arbitrary: d)
  case Nil
  then show ?case by simp
next
  case (Cons e es)
  from Cons.prems have "\<forall>t\<in>set (timers (step e d)). progress t \<le> 90"
    by (rule timers_step_capped)
  then show ?case unfolding run.simps by (rule Cons.IH)
qed

lemma run_timers_length: "length (timers d) \<le> length (timers (run es d))"
proof (induction es arbitrary: d)
  case Nil
  show ?case by simp
next
  case (Cons e es)
  have "length (timers d) \<le> length (timers (step e d))" by (rule timers_step_length)
  also have "\<dots> \<le> length (timers (run es (step e d)))" by (rule Cons.IH)
  finally show ?case by simp
qed

lemma run_timers_delay:
  "i < length (timers d) \<Longrightarrow> delay (timers (run es d) ! i) = delay (timers d ! i)"
proof (induction es arbitrary: d)
  case Nil
  show ?case by simp
next
  case (Cons e es)
  have "i < length (timers (step e d))"
    using Cons.prems timers_step_length [of d e] by simp
  then have "delay (timers (run es (step e d)) ! i) = delay (timers (step e d) ! i)"
    by (rule Cons.IH)
  also have "\<dots> = delay (timers d ! i)" using Cons.prems by (rule timers_step_delay)
  finally show ?case by simp
qed

lemma progress_run_example:
  "map (\<lambda>es. progress (timers (run es page_load) ! 0))
     [[Submit], [Submit, Tick 1 (1 / 2)], [Submit, Tick 1 (1 / 2), Tick 1 (9 / 10)]] = [0, 5, 14]"
  by (simp add: page_load_def uploadForm_submit_def progressInterval_callback_def Let_def)

text \<open>
  Claim C2: in every run of the page from its load (any events in any order, each random
  number in \<open>[0, 1)\<close>), whatever happens next, the progress value of every interval that
  a submission has started does not decrease, and it is at most 90, so below 100.
\<close>

theorem progress_monotone_and_capped:
  assumes "\<forall>x\<in>set es. valid_event x" and "valid_event e" and "timers d = []"
  shows "\<forall>i<length (timers (run es d)).
           progress (timers (run es d) ! i) \<le> progress (timers (step e (run es d)) ! i) \<and>
           progress (timers (step e (run es d)) ! i) \<le> 90 \<and>
           progress (timers (step e (run es d)) ! i) < 100"
proof (intro allI impI)
  fix i assume i: "i < length (timers (run es d))"
  from assms(3) have "\<forall>t\<in>set (timers d). progress t \<le> 90" by simp
  then have cap: "\<forall>t\<in>set (timers (run es d)). progress t \<le> 90" by (rule run_capped)
  then have cap': "\<forall>t\<in>set (timers (step e (run es d))). progress t \<le> 90"
    by (rule timers_step_capped)
  have "i < length (timers (step e (run es d)))"
    using i timers_step_length [of "run es d" e] by simp
  with cap' have le: "progress (timers (step e (run es d)) ! i) \<le> 90" by simp
  have "progress (timers (run es d) ! i) \<le> progress (timers (step e (run es d)) ! i)"
    using assms(2) cap i by (rule timers_step_mono)
  with le show "progress (timers (run es d) ! i) \<le> progress (timers (step e (run es d)) ! i) \<and>
           progress (timers (step e (run es d)) ! i) \<le> 90 \<and>
           progress (timers (step e (run es d)) ! i) < 100" by simp
qed

theorem progress_monotone_and_capped_witness:
  "valid_event Submit \<and> valid_event (Tick 1 (1 / 2)) \<and> valid_event (Tick 1 (9 / 10)) \<and>
   timers page_load = [] \<and>
   length (timers (run [Submit, Tick 1 (1 / 2)] page_load)) = 1 \<and>
   progress (timers (run [Submit, Tick 1 (1 / 2)] page_load) ! 0)
     \<le> progress (timers (step (Tick 1 (9 / 10)) (run [Submit, Tick 1 (1 / 2)] page_load)) ! 0) \<and>
   progress (timers (step (Tick 1 (9 / 10)) (run [Submit, Tick 1 (1 / 2)] page_load)) ! 0) \<le> 90 \<and>
   progress (timers (step (Tick 1 (9 / 10)) (run [Submit, Tick 1 (1 / 2)] page_load)) ! 0) < 100"
proof -
  have h1: "\<forall>x\<in>set [Submit, Tick 1 (1 / 2)]. valid_event x" by simp
  have h2: "valid_event (Tick 1 (9 / 10))" by simp
  have h3: "timers page_load = []" by (simp add: page_load_def)
  have len: "length (timers (run [Submit, Tick 1 (1 / 2)] page_load)) = 1"
    by (simp add: timers_callback timers_submit h3)
  then have "0 < length (timers (run [Submit, Tick 1 (1 / 2)] page_load))" by simp
  with progress_monotone_and_capped [OF h1 h2 h3]
  have "progress (timers (run [Submit, Tick 1 (1 / 2)] page_load) ! 0)
          \<le> progress (timers (step (Tick 1 (9 / 10)) (run [Submit, Tick 1 (1 / 2)] page_load)) ! 0) \<and>
        progress (timers (step (Tick 1 (9 / 10)) (run [Submit, Tick 1 (1 / 2)] page_load)) ! 0) \<le> 90 \<and>
        progress (timers (step (Tick 1 (9 / 10)) (run [Submit, Tick 1 (1 / 2)] page_load)) ! 0) < 100"
    by blast
  with h2 h3 len show ?thesis by simp
qed

text \<open>
  Claim C8: the submit listener stores the handle of the interval it starts in the form's
  data set, and nothing that happens afterwards removes the interval: after any further
  events the timer with that handle is still registered, with its delay of 500 ms. (No
  listener of the script calls \<^verbatim>\<open>clearInterval\<close>; the step function has no such case.)
\<close>

theorem progressInterval_kept_and_never_cleared:
  "dataset_progressInterval (step Submit d) = Some (decimal (Suc (length (timers d)))) \<and>
   Suc (length (timers d)) \<le> length (timers (run es (step Submit d))) \<and>
   delay (timers (run es (step Submit d)) ! length (timers d)) = 500"
proof -
  have "length (timers (step Submit d)) \<le> length (timers (run es (step Submit d)))"
    by (rule run_timers_length)
  then have len: "Suc (length (timers d)) \<le> length (timers (run es (step Submit d)))"
    by (simp add: timers_submit)
  have "length (timers d) < length (timers (step Submit d))" by (simp add: timers_submit)
  then have "delay (timers (run es (step Submit d)) ! length (timers d))
               = delay (timers (step Submit d) ! length (timers d))"
    by (rule run_timers_delay)
  then have del: "delay (timers (run es (step Submit d)) ! length (timers d)) = 500"
    by (simp add: timers_submit)
  have "dataset_progressInterval (step Submit d) = Some (decimal (Suc (length (timers d))))"
    by (simp add: uploadForm_submit_def Let_def)
  with len del show ?thesis by blast
qed

theorem progressInterval_kept_and_never_cleared_witness:
  "dataset_progressInterval (step Submit page_load) = Some ''1'' \<and>
   1 \<le> length (timers (run [Tick 1 (1 / 2), RemoveClick, Submit] (step Submit page_load))) \<and>
   delay (timers (run [Tick 1 (1 / 2), RemoveClick, Submit] (step Submit page_load)) ! 0) = 500"
proof -
  have t: "timers page_load = []" by (simp add: page_load_def)
  have d: "decimal (Suc 0) = ''1''" by (simp add: decimal.simps digit_def)
  from progressInterval_kept_and_never_cleared
    [of page_load "[Tick 1 (1 / 2), RemoveClick, Submit]"]
  show ?thesis by (simp add: t d)
qed

section \<open>The status text\<close>

text \<open>
  Claim C5: after every firing of a registered interval the status text is determined by
  the progress value the firing leaves, in three phases with the thresholds 30 and 60;
  the width of the progress bar is that same value.
\<close>

theorem processingText_follows_thresholds:
  assumes "0 < h" and "h \<le> length (timers d)"
  shows "(progress (timers (progressInterval_callback h r d) ! (h - 1)) < 30 \<longrightarrow>
            processingText_textContent (progressInterval_callback h r d)
              = ''Validating file format...'') \<and>
         (30 \<le> progress (timers (progressInterval_callback h r d) ! (h - 1)) \<and>
          progress (timers (progressInterval_callback h r d) ! (h - 1)) < 60 \<longrightarrow>
            processingText_textContent (progressInterval_callback h r d)
              = ''Initializing AI agent...'') \<and>
         (60 \<le> progress (timers (progressInterval_callback h r d) ! (h - 1)) \<longrightarrow>
            processingText_textContent (progressInterval_callback h r d)
              = ''Cleaning and enriching data...'') \<and>
         progressBar_width (progressInterval_callback h r d)
           = progress (timers (progressInterval_callback h r d) ! (h - 1))"
  using assms by (simp add: progressInterval_callback_def Let_def)

theorem processingText_follows_thresholds_witness:
  "(0::nat) < 1 \<and> 1 \<le> length (timers (uploadForm_submit page_load)) \<and>
   progress (timers (progressInterval_callback 1 (1 / 2) (uploadForm_submit page_load)) ! 0) = 5 \<and>
   processingText_textContent (progressInterval_callback 1 (1 / 2) (uploadForm_submit page_load))
     = ''Validating file format...''"
proof -
  have h1: "(0::nat) < 1" by simp
  have h2: "1 \<le> length (timers (uploadForm_submit page_load))"
    by (simp add: timers_submit)
  have p: "progress (timers (progressInterval_callback 1 (1 / 2) (uploadForm_submit page_load)) ! 0) = 5"
    by (simp add: timers_callback timers_submit page_load_def)
  from processingText_follows_thresholds [OF h1 h2, of "1 / 2"] p h2 show ?thesis by simp
qed

text \<open>Each phase occurs, on both sides of each threshold.\<close>

lemma phases_reached:
  "map (\<lambda>p. processingText_textContent
          (progressInterval_callback 1 (1 / 2)
             (page_load\<lparr>timers := [\<lparr>delay = 500, progress = p\<rparr>]\<rparr>)))
     [0, 24, 25, 54, 55, 89] =
   [''Validating file format...'', ''Validating file format...'', ''Initializing AI agent...'',
    ''Initializing AI agent...'', ''Cleaning and enriching data...'',
    ''Cleaning and enriching data...'']"
  by (simp add: progressInterval_callback_def Let_def page_load_def)

section \<open>Dropping files\<close>

lemma handleFiles_nonempty:
  "files \<noteq> [] \<Longrightarrow>
   handleFiles files d = (updateFileInfo (hd files) d)\<lparr>fileInput_files := files\<rparr>"
  by (cases files) (simp_all add: handleFiles_def)

lemma dropArea_drop_nonempty:
  "files \<noteq> [] \<Longrightarrow>
   dropArea_drop files (e, d) =
     (preventDefaults e, (updateFileInfo (hd files) (unhighlight d))\<lparr>fileInput_files := files\<rparr>)"
  by (simp add: dropArea_drop_def handleDrop_def handleFiles_nonempty)

lemma dropZone_drop_nonempty:
  "files \<noteq> [] \<Longrightarrow>
   dropZone_drop files (e, d) =
     (e\<lparr>defaultPrevented := True, propagationStopped := True\<rparr>,
      d\<lparr>dropZone_dragging := False, fileInput2_files := files,
        selectedFileContainer_innerHTML :=
          ''<strong>'' @ file_name (hd files) @ ''</strong> ('' @
          toFixed2_string (toFixed2 (file_size (hd files)) 1024) @ '' KB)''\<rparr>,
      None)"
  by (cases files) (simp_all add: dropZone_drop_def showFile_def index_def Let_def)

text \<open>
  Claim C3 (a drop selects exactly the first file and ignores the others, so at most one
  file is selected) fails on the code: after a drop of two files the file input holds
  both of them.
\<close>

theorem drop_two_files_selects_both:
  "fileInput_files (snd (dropArea_drop [providers_csv, notes_txt] (new_event, page_load)))
     = [providers_csv, notes_txt] \<and>
   \<not> length (fileInput_files
         (snd (dropArea_drop [providers_csv, notes_txt] (new_event, page_load)))) \<le> 1"
  by (simp add: dropArea_drop_nonempty)

text \<open>
  Claim C3 as amended: a drop that carries a non-empty file list renders the summary of
  exactly the first file (its name and its formatted size, with the file-info display
  shown and the upload prompt hidden; in the second variant the line for the first file)
  and assigns the whole dropped list to the file input.
\<close>

theorem drop_renders_first_file:
  assumes "files \<noteq> []"
  shows "fileName_textContent (snd (dropArea_drop files (e, d))) = file_name (hd files) \<and>
         fileSize_textContent (snd (dropArea_drop files (e, d)))
           = formatFileSize (file_size (hd files)) \<and>
         fileInfo_display (snd (dropArea_drop files (e, d))) = ''flex'' \<and>
         uploadPrompt_display (snd (dropArea_drop files (e, d))) = ''none'' \<and>
         fileInput_files (snd (dropArea_drop files (e, d))) = files \<and>
         selectedFileContainer_innerHTML (fst (snd (dropZone_drop files (e, d2))))
           = ''<strong>'' @ file_name (hd files) @ ''</strong> ('' @
             toFixed2_string (toFixed2 (file_size (hd files)) 1024) @ '' KB)'' \<and>
         fileInput2_files (fst (snd (dropZone_drop files (e, d2)))) = files \<and>
         snd (snd (dropZone_drop files (e, d2))) = None"
  using assms
  by (simp add: dropArea_drop_nonempty dropZone_drop_nonempty updateFileInfo_def)

theorem drop_renders_first_file_witness:
  "[providers_csv, notes_txt] \<noteq> [] \<and>
   fileName_textContent (snd (dropArea_drop [providers_csv, notes_txt] (new_event, page_load)))
     = ''providers.csv'' \<and>
   fileSize_textContent (snd (dropArea_drop [providers_csv, notes_txt] (new_event, page_load)))
     = ''2 KB'' \<and>
   fileInput_files (snd (dropArea_drop [providers_csv, notes_txt] (new_event, page_load)))
     = [providers_csv, notes_txt] \<and>
   selectedFileContainer_innerHTML
     (fst (snd (dropZone_drop [providers_csv, notes_txt] (new_event, page2_load))))
     = ''<strong>providers.csv</strong> (2.00 KB)'' \<and>
   fileInput2_files (fst (snd (dropZone_drop [providers_csv, notes_txt] (new_event, page2_load))))
     = [providers_csv, notes_txt]"
proof -
  have h: "[providers_csv, notes_txt] \<noteq> []" by simp
  have n: "file_name providers_csv = ''providers.csv''" "file_size providers_csv = 2048"
    by (simp_all add: providers_csv_def)
  from drop_renders_first_file [OF h, of new_event page_load page2_load]
  show ?thesis by (simp add: n formatFileSize_2048 showFile_size_2048)
qed

text \<open>
  The submit listeners leave the file input as it is, so the post carries its files.
\<close>

lemma uploadForm_post_files: "post_files (uploadForm_post d) = fileInput_files d"
  by (simp add: uploadForm_post_def uploadForm_submit_def Let_def)

lemma uploadForm2_post_files: "uploadForm2_post d = fileInput2_files d"
  by (simp add: uploadForm2_post_def uploadForm2_submit_def)

text \<open>
  Claim C10: a drop of more than one file leaves every dropped file in the file input, in
  both variants of the widget (the list in the input is the dropped list, of the same
  length), and a submission of the form after the drop posts every one of them; only the
  summary is that of the first file (in \<^verbatim>\<open>script.js\<close> its name and formatted size, in
  the second variant its line in the container).
\<close>

theorem drop_keeps_every_file:
  assumes "1 < length files"
  shows "fileInput_files (snd (dropArea_drop files (e, d))) = files \<and>
         length (fileInput_files (snd (dropArea_drop files (e, d)))) = length files \<and>
         post_files (uploadForm_post (snd (dropArea_drop files (e, d)))) = files \<and>
         fileName_textContent (snd (dropArea_drop files (e, d))) = file_name (files ! 0) \<and>
         fileSize_textContent (snd (dropArea_drop files (e, d)))
           = formatFileSize (file_size (files ! 0)) \<and>
         fileInput2_files (fst (snd (dropZone_drop files (e, d2)))) = files \<and>
         length (fileInput2_files (fst (snd (dropZone_drop files (e, d2))))) = length files \<and>
         uploadForm2_post (fst (snd (dropZone_drop files (e, d2)))) = files \<and>
         selectedFileContainer_innerHTML (fst (snd (dropZone_drop files (e, d2))))
           = ''<strong>'' @ file_name (files ! 0) @ ''</strong> ('' @
             toFixed2_string (toFixed2 (file_size (files ! 0)) 1024) @ '' KB)''"
proof -
  from assms have ne: "files \<noteq> []" by auto
  then have "hd files = files ! 0" by (simp add: hd_conv_nth)
  with ne show ?thesis
    by (simp add: dropArea_drop_nonempty dropZone_drop_nonempty updateFileInfo_def
        uploadForm_post_files uploadForm2_post_files)
qed

theorem drop_keeps_every_file_witness:
  "1 < length [notes_txt, providers_csv, notes_txt] \<and>
   fileInput_files (snd (dropArea_drop [notes_txt, providers_csv, notes_txt] (new_event, page_load)))
     = [notes_txt, providers_csv, notes_txt] \<and>
   length (fileInput_files
     (snd (dropArea_drop [notes_txt, providers_csv, notes_txt] (new_event, page_load)))) = 3 \<and>
   post_files (uploadForm_post
     (snd (dropArea_drop [notes_txt, providers_csv, notes_txt] (new_event, page_load))))
     = [notes_txt, providers_csv, notes_txt] \<and>
   fileName_textContent
     (snd (dropArea_drop [notes_txt, providers_csv, notes_txt] (new_event, page_load)))
     = ''notes.txt'' \<and>
   length (fileInput2_files
     (fst (snd (dropZone_drop [notes_txt, providers_csv, notes_txt] (new_event, page2_load))))) = 3 \<and>
   uploadForm2_post
     (fst (snd (dropZone_drop [notes_txt, providers_csv, notes_txt] (new_event, page2_load))))
     = [notes_txt, providers_csv, notes_txt] \<and>
   selectedFileContainer_innerHTML
     (fst (snd (dropZone_drop [notes_txt, providers_csv, notes_txt] (new_event, page2_load))))
     = ''<strong>notes.txt</strong> (1.50 KB)''"
proof -
  have h: "1 < length [notes_txt, providers_csv, notes_txt]" by simp
  have n: "file_name notes_txt = ''notes.txt''" "file_size notes_txt = 1536"
    by (simp_all add: notes_txt_def)
  have z: "toFixed2_string (toFixed2 1536 1024) = ''1.50''"
    by (simp add: toFixed2_string_def toFixed2_def decimal.simps digit_def)
  from drop_keeps_every_file [OF h, of new_event page_load page2_load]
  show ?thesis by (simp add: n z)
qed

text \<open>
  In \<^verbatim>\<open>script.js\<close> a drop without files leaves the selection and its summary as they
  were: \<^verbatim>\<open>handleFiles\<close> checks the length of the list first.
\<close>

lemma empty_drop_keeps_selection:
  "handleFiles [] d = d \<and>
   fileInput_files (snd (dropArea_drop [] (e, d))) = fileInput_files d \<and>
   fileName_textContent (snd (dropArea_drop [] (e, d))) = fileName_textContent d \<and>
   fileSize_textContent (snd (dropArea_drop [] (e, d))) = fileSize_textContent d \<and>
   fileInfo_display (snd (dropArea_drop [] (e, d))) = fileInfo_display d \<and>
   uploadPrompt_display (snd (dropArea_drop [] (e, d))) = uploadPrompt_display d"
  by (simp add: dropArea_drop_def handleDrop_def handleFiles_def unhighlight_def)

text \<open>So does the \<^verbatim>\<open>change\<close> listener of the second variant.\<close>

lemma variant_change_guards_empty:
  "fileInput2_files d = [] \<Longrightarrow> fileInput2_change d = Inr d"
  by (simp add: fileInput2_change_def)

text \<open>The page of the second variant on which one file is selected arises by a drop.\<close>

lemma page2_selected_reachable:
  "fst (snd (dropZone_drop [providers_csv] (new_event, page2_load))) = page2_selected"
  by (simp add: dropZone_drop_nonempty page2_selected_def page2_load_def providers_csv_def
      showFile_size_2048)

text \<open>
  Claim C4 (a drop without files changes neither the selection nor the summary): the drop
  listener of the second variant breaks it. It has no check of the length, as
  \<^verbatim>\<open>handleFiles\<close> and its own \<^verbatim>\<open>change\<close> listener have: with one file selected, a drop
  without files empties the file input and then throws a \<^verbatim>\<open>TypeError\<close> in
  \<^verbatim>\<open>showFile(undefined)\<close>.
\<close>

theorem empty_drop_clears_selection_in_variant:
  "fileInput2_files page2_selected = [providers_csv] \<and>
   fileInput2_files (fst (snd (dropZone_drop [] (new_event, page2_selected)))) = [] \<and>
   snd (snd (dropZone_drop [] (new_event, page2_selected))) = Some TypeError"
  by (simp add: dropZone_drop_def showFile_def index_def page2_selected_def page2_load_def)

text \<open>\<^verbatim>\<open>loadSample\<close> selects the sample file of 443 bytes and checks every option.\<close>

lemma loadSample_selects_sample:
  "fileInput_files (loadSample d) =
     [\<lparr>file_name = ''sample_providers.csv'', file_size = 443, file_type = ''text/csv''\<rparr>] \<and>
   fileName_textContent (loadSample d) = ''sample_providers.csv'' \<and>
   fileSize_textContent (loadSample d) = ''443 Bytes'' \<and>
   ai_options_checked (loadSample d) = replicate (length (ai_options_checked d)) True"
proof -
  have len: "length sampleCSV = 443" by (simp add: sampleCSV_def)
  have "formatFileSize 443 =
          ''443'' @ '' '' @ to_string (index [''Bytes'', ''KB'', ''MB'', ''GB''] 0)"
    by (rule formatFileSize_eval)
       (simp_all add: floor_log_quotient_def floor_log.simps toFixed2_def number_string_def
          decimal.simps digit_def)
  then have fmt: "formatFileSize 443 = ''443 Bytes''" by (simp add: index_def to_string_def)
  show ?thesis
    by (simp add: loadSample_def updateFileInfo_def Let_def len fmt map_replicate_const)
qed

section \<open>Removing the selection\<close>

lemma fileInput_change_nonempty:
  "files \<noteq> [] \<Longrightarrow>
   fileInput_change (d\<lparr>fileInput_files := files\<rparr>) =
     updateFileInfo (hd files) (d\<lparr>fileInput_files := files\<rparr>)"
  by (cases files) (simp_all add: fileInput_change_def)

text \<open>
  Claim C6: the click listener of the remove button stops the propagation of the event,
  empties the file input, hides the file-info display and shows the upload prompt again;
  and a selection made afterwards, by a drop or in the file dialog, gives the same file
  input and the same summary as that selection made on any other page \<open>d0\<close>, so also on a
  freshly loaded one.
\<close>

theorem removeFile_resets_selection:
  assumes "files \<noteq> []"
  shows "propagationStopped (fst (removeFileBtn_click (e, d))) \<and>
         fileInput_files (snd (removeFileBtn_click (e, d))) = [] \<and>
         fileInfo_display (snd (removeFileBtn_click (e, d))) = ''none'' \<and>
         uploadPrompt_display (snd (removeFileBtn_click (e, d))) = ''block'' \<and>
         fileInput_files (step (Drop files) (snd (removeFileBtn_click (e, d))))
           = fileInput_files (step (Drop files) d0) \<and>
         fileName_textContent (step (Drop files) (snd (removeFileBtn_click (e, d))))
           = fileName_textContent (step (Drop files) d0) \<and>
         fileSize_textContent (step (Drop files) (snd (removeFileBtn_click (e, d))))
           = fileSize_textContent (step (Drop files) d0) \<and>
         fileInfo_display (step (Drop files) (snd (removeFileBtn_click (e, d))))
           = fileInfo_display (step (Drop files) d0) \<and>
         uploadPrompt_display (step (Drop files) (snd (removeFileBtn_click (e, d))))
           = uploadPrompt_display (step (Drop files) d0) \<and>
         dropArea_borderColor (step (Drop files) (snd (removeFileBtn_click (e, d))))
           = dropArea_borderColor (step (Drop files) d0) \<and>
         dropArea_backgroundColor (step (Drop files) (snd (removeFileBtn_click (e, d))))
           = dropArea_backgroundColor (step (Drop files) d0) \<and>
         fileInput_files (step (Pick files) (snd (removeFileBtn_click (e, d))))
           = fileInput_files (step (Pick files) d0) \<and>
         fileName_textContent (step (Pick files) (snd (removeFileBtn_click (e, d))))
           = fileName_textContent (step (Pick files) d0) \<and>
         fileSize_textContent (step (Pick files) (snd (removeFileBtn_click (e, d))))
           = fileSize_textContent (step (Pick files) d0) \<and>
         fileInfo_display (step (Pick files) (snd (removeFileBtn_click (e, d))))
           = fileInfo_display (step (Pick files) d0) \<and>
         uploadPrompt_display (step (Pick files) (snd (removeFileBtn_click (e, d))))
           = uploadPrompt_display (step (Pick files) d0)"
  using assms
  by (simp add: removeFileBtn_click_def dropArea_drop_nonempty fileInput_change_nonempty
      updateFileInfo_def unhighlight_def)

theorem removeFile_resets_selection_witness:
  "[notes_txt] \<noteq> [] \<and>
   propagationStopped (fst (removeFileBtn_click (new_event, step (Drop [providers_csv]) page_load))) \<and>
   fileInput_files (snd (removeFileBtn_click (new_event, step (Drop [providers_csv]) page_load))) = [] \<and>
   fileName_textContent
     (step (Drop [notes_txt])
        (snd (removeFileBtn_click (new_event, step (Drop [providers_csv]) page_load))))
     = fileName_textContent (step (Drop [notes_txt]) page_load) \<and>
   fileName_textContent (step (Drop [notes_txt]) page_load) = ''notes.txt''"
proof -
  have h: "[notes_txt] \<noteq> []" by simp
  have n: "fileName_textContent (step (Drop [notes_txt]) page_load) = ''notes.txt''"
    by (simp add: dropArea_drop_nonempty updateFileInfo_def notes_txt_def)
  from removeFile_resets_selection
    [OF h, of new_event "step (Drop [providers_csv]) page_load" page_load] n
  show ?thesis by simp
qed

section \<open>Submitting the form\<close>

text \<open>
  Claim C7 (on submission the handler disables the submit control, shows the overlay and
  starts a repeating timer of 500 ms) fails for the submit listener of the second
  variant: after it has run on a freshly loaded page, no interval is registered.
\<close>

theorem variant_submit_starts_no_timer:
  "intervals2 (uploadForm2_submit page2_load) = []"
  by (simp add: uploadForm2_submit_def page2_load_def)

text \<open>
  Claim C7 as amended: the submit listener of \<^verbatim>\<open>script.js\<close> shows the processing
  overlay, disables the submit button and registers one more interval, with a delay of
  500 ms and the progress value 0, whose firing advances that value by ten times the
  random number; the submit listener of the second variant only shows the progress
  container and registers no interval.
\<close>

theorem submit_starts_progress:
  "processingOverlay_display (uploadForm_submit d) = ''flex'' \<and>
   submitBtn_disabled (uploadForm_submit d) \<and>
   timers (uploadForm_submit d) = timers d @ [\<lparr>delay = 500, progress = 0\<rparr>] \<and>
   progress (timers (progressInterval_callback (Suc (length (timers d))) r (uploadForm_submit d))
              ! length (timers d))
     = (if r * 10 > 90 then 90 else r * 10) \<and>
   progressContainer_display (uploadForm2_submit d2) = ''flex'' \<and>
   intervals2 (uploadForm2_submit d2) = intervals2 d2"
  by (simp add: uploadForm_submit_def uploadForm2_submit_def Let_def timers_callback)

end
